theory Spec2Isabelle
  imports Main "HOL-Library.Word"
begin

unbundle bit_operations_syntax

section \<open>Bytes, panics and big-endian conversion\<close>

type_synonym byte = "8 word"
type_synonym bytes = "byte list"
type_synonym u32 = "32 word"

text \<open>
  A Go run-time panic is a value. \<open>IndexOutOfRange i n\<close> is an index expression
  \<open>b[i]\<close> on a slice of length \<open>n \<le> i\<close>; \<open>SliceBoundsOutOfRange\<close> is a slice expression
  \<open>b[lo:]\<close> whose lower bound does not fit.
\<close>

datatype panic = IndexOutOfRange nat nat | SliceBoundsOutOfRange

text \<open>
  \<open>binary.BigEndian.Uint32(b)\<close> starts with the bounds check \<open>_ = b[3]\<close>, so it panics on
  a slice shorter than four bytes, and reads the first four bytes otherwise.
  \<open>binary.BigEndian.PutUint32(buf[:], v)\<close> on a four-byte array is returned as the array.
\<close>

definition Uint32 :: "bytes \<Rightarrow> panic + u32" where
  "Uint32 b =
     (if length b < 4 then Inl (IndexOutOfRange 3 (length b))
      else Inr (ucast (b ! 3) OR push_bit 8 (ucast (b ! 2))
                OR push_bit 16 (ucast (b ! 1)) OR push_bit 24 (ucast (b ! 0))))"

definition PutUint32 :: "u32 \<Rightarrow> bytes" where
  "PutUint32 v = [ucast (drop_bit 24 v), ucast (drop_bit 16 v), ucast (drop_bit 8 v), ucast v]"

section \<open>The subnet enumerator\<close>

record IPNet =
  IP :: bytes
  Mask :: bytes

text \<open>
  The loop of \<open>ips\<close>: \<open>for mask < 0xffffffff { out = append(out, bytes of num); mask++; num++ }\<close>
  on \<open>uint32\<close> values, whose \<open>++\<close> wraps around. The source's variable \<open>mask\<close> is
  \<open>msk\<close> here (\<open>mask\<close> is a constant of the word library).
\<close>

function ips_loop :: "u32 \<Rightarrow> u32 \<Rightarrow> bytes list \<Rightarrow> bytes list" where
  "ips_loop num msk out =
     (if msk < 0xffffffff then ips_loop (num + 1) (msk + 1) (out @ [PutUint32 num])
      else out)"
  by pat_completeness auto

termination
proof (relation "measure (\<lambda>(num, msk, out). 4294967295 - unat msk)")
  show "wf (measure (\<lambda>(num :: u32, msk :: u32, out :: bytes list). 4294967295 - unat msk))"
    by simp
next
  fix num msk :: u32 and out :: "bytes list"
  assume lt: "msk < 0xffffffff"
  then have small: "unat msk < 4294967295"
    by (simp add: word_less_nat_alt)
  then have "unat msk + unat (1 :: u32) < 2 ^ LENGTH(32)"
    by simp
  then have "unat (msk + 1) = unat msk + unat (1 :: u32)"
    by (simp only: unat_add_lem)
  with small
  show "((num + 1, msk + 1, out @ [PutUint32 num]), (num, msk, out))
          \<in> measure (\<lambda>(num, msk, out). 4294967295 - unat msk)"
    by simp
qed

declare ips_loop.simps [simp del]

definition ips :: "IPNet \<Rightarrow> panic + bytes list" where
  "ips n =
     (case Uint32 (IP n) of
        Inl p \<Rightarrow> Inl p
      | Inr num \<Rightarrow>
          (case Uint32 (Mask n) of
             Inl p \<Rightarrow> Inl p
           | Inr msk \<Rightarrow> Inr (ips_loop (num AND msk) msk [])))"

text \<open>The number of one bits of a 32-bit value.\<close>

definition popcount :: "u32 \<Rightarrow> nat" where
  "popcount w = length (filter (bit w) [0..<32])"

text \<open>
  \<open>CIDRMask ones\<close> is the mask of \<open>ones\<close> leading one bits followed by zero bits, the only
  kind of mask a prefix length gives.
\<close>

definition CIDRMask :: "nat \<Rightarrow> u32" where
  "CIDRMask ones = NOT (mask (32 - ones))"

definition is_cidr_mask :: "u32 \<Rightarrow> bool" where
  "is_cidr_mask m = (\<exists>ones \<in> set [0..<33]. m = CIDRMask ones)"


section \<open>Interfaces, layers, log lines and errors\<close>

text \<open>The two fields of \<open>net.Interface\<close> that the scanner reads.\<close>

record Interface =
  Name :: string
  HardwareAddr :: bytes

text \<open>
  An element of \<open>iface.Addrs()\<close> is a \<open>net.Addr\<close>: either a \<open>*net.IPNet\<close> or a value of
  another address type, which the type assertion \<open>a.(*net.IPNet)\<close> rejects.
\<close>

datatype Addr = AddrIPNet IPNet | AddrOther

text \<open>The fields of \<open>layers.Ethernet\<close> and \<open>layers.ARP\<close> that \<open>writeARP\<close> sets.\<close>

record Ethernet =
  SrcMAC :: bytes
  DstMAC :: bytes
  EthernetType :: "16 word"

record ARP =
  AddrType :: "8 word"
  Protocol :: "16 word"
  HwAddressSize :: byte
  ProtAddressSize :: byte
  Operation :: "16 word"
  SourceHwAddress :: bytes
  SourceProtAddress :: bytes
  DstHwAddress :: bytes
  DstProtAddress :: bytes

text \<open>The constants of the packet library that the scanner names, with their wire values.\<close>

definition LinkTypeEthernet :: "8 word" where
  "LinkTypeEthernet = 1"

definition EthernetTypeIPv4 :: "16 word" where
  "EthernetTypeIPv4 = 0x0800"

definition EthernetTypeARP :: "16 word" where
  "EthernetTypeARP = 0x0806"

definition ARPRequest :: "16 word" where
  "ARPRequest = 1"

definition ARPReply :: "16 word" where
  "ARPReply = 2"

text \<open>
  An error value: \<open>context.Canceled\<close>, or any other error with its message (the errors of
  the capture handle and of the serializer).
\<close>

datatype error = Canceled | Failure string

text \<open>The log lines of the scanner, one constructor per \<open>log.Printf\<close>/\<open>log.Println\<close> call.\<close>

datatype logline =
    AddrsError string string
  | OpenError string
  | Scanning string
  | StopScanner string
  | WritingError string error
  | StopReader string
  | Found string bytes bytes
  | StopWriter string
  | SerializeWarn string

text \<open>
  What a task does, in order: a non-blocking poll of \<open>ctx.Done()\<close> with its answer, a call
  of \<open>gopacket.SerializeLayers\<close> with the two layers and its error, a call of
  \<open>handle.WritePacketData\<close> with its bytes and its error, a log line, the start of the reader
  goroutine, and the deferred \<open>handle.Close()\<close> and \<open>wg.Done()\<close>.
\<close>

datatype event =
    Poll bool
  | Serialize Ethernet ARP "string option"
  | Write bytes "string option"
  | Log logline
  | GoReadARP
  | HandleClose
  | WgDone

text \<open>How far a task got: it returned, it panicked, or it is still blocked in its \<open>select\<close>.\<close>

datatype exit = Returned | Panicked panic | Blocked

section \<open>The probe driver\<close>

text \<open>
  What lies outside the program during one sweep. \<open>ctxDone i\<close> tells whether \<open>ctx.Done()\<close>
  is closed when the \<open>i\<close>-th iteration polls it. \<open>SerializeLayers buf eth arp\<close> is the
  library call on a buffer holding \<open>buf\<close> (the options are fixed): its error, and the bytes
  the buffer holds afterwards. \<open>WritePacketData i b\<close> is the error of the write that the
  \<open>i\<close>-th iteration makes with the bytes \<open>b\<close>.
\<close>

record env =
  ctxDone :: "nat \<Rightarrow> bool"
  SerializeLayers :: "bytes \<Rightarrow> Ethernet \<Rightarrow> ARP \<Rightarrow> string option \<times> bytes"
  WritePacketData :: "nat \<Rightarrow> bytes \<Rightarrow> string option"

text \<open>
  The loop of \<open>writeARP\<close> over the candidates, from iteration \<open>i\<close> with the buffer holding
  \<open>buf\<close>: poll the context and return \<open>context.Canceled\<close> when it is done; set the target
  address; serialize, logging a warning on an error; write the buffer's bytes whatever the
  serializer returned, and return the error of a failed write.
\<close>

fun writeARP_loop ::
  "env \<Rightarrow> Interface \<Rightarrow> Ethernet \<Rightarrow> ARP \<Rightarrow> nat \<Rightarrow> bytes \<Rightarrow> bytes list \<Rightarrow> error option \<times> event list"
where
  "writeARP_loop e iface eth arp i buf [] = (None, [])"
| "writeARP_loop e iface eth arp i buf (ip # rest) =
     (if ctxDone e i then (Some Canceled, [Poll True, Log (StopWriter (Name iface))])
      else
        (let arp' = arp\<lparr>DstProtAddress := ip\<rparr>;
             serr = fst (SerializeLayers e buf eth arp');
             buf' = snd (SerializeLayers e buf eth arp');
             warn = (case serr of None \<Rightarrow> [] | Some m \<Rightarrow> [Log (SerializeWarn m)])
         in case WritePacketData e i buf' of
              Some m \<Rightarrow>
                (Some (Failure m),
                 [Poll False, Serialize eth arp' serr] @ warn @ [Write buf' (Some m)])
            | None \<Rightarrow>
                (fst (writeARP_loop e iface eth arp' (Suc i) buf' rest),
                 [Poll False, Serialize eth arp' serr] @ warn @ [Write buf' None]
                   @ snd (writeARP_loop e iface eth arp' (Suc i) buf' rest))))"

text \<open>
  The two layers as \<open>writeARP\<close> sets them up before its loop; the loop fills in the target
  protocol address.
\<close>

definition writeARP_eth :: "Interface \<Rightarrow> Ethernet" where
  "writeARP_eth iface =
     \<lparr>SrcMAC = HardwareAddr iface,
      DstMAC = [0xff, 0xff, 0xff, 0xff, 0xff, 0xff],
      EthernetType = EthernetTypeARP\<rparr>"

definition writeARP_arp :: "Interface \<Rightarrow> IPNet \<Rightarrow> ARP" where
  "writeARP_arp iface addr =
     \<lparr>AddrType = LinkTypeEthernet,
      Protocol = EthernetTypeIPv4,
      HwAddressSize = 6,
      ProtAddressSize = 4,
      Operation = ARPRequest,
      SourceHwAddress = HardwareAddr iface,
      SourceProtAddress = IP addr,
      DstHwAddress = [0, 0, 0, 0, 0, 0],
      DstProtAddress = []\<rparr>"

text \<open>
  \<open>writeARP\<close>: the two layers, a new (empty) serialization buffer, and the loop over
  \<open>ips(addr)\<close>, whose panic is the panic of \<open>writeARP\<close>.
\<close>

definition writeARP :: "env \<Rightarrow> Interface \<Rightarrow> IPNet \<Rightarrow> panic + error option \<times> event list" where
  "writeARP e iface addr =
     (case ips addr of
        Inl p \<Rightarrow> Inl p
      | Inr out \<Rightarrow>
          Inr (writeARP_loop e iface (writeARP_eth iface) (writeARP_arp iface addr) 0 [] out))"

text \<open>
  One \<open>select\<close> of a task's loop: the case \<open>ctx.Done()\<close> fires, or the other channel
  delivers (the ticker, with what lies outside during the sweep it starts; the packet
  source, with a packet).
\<close>

datatype 'a select = CtxDone | Received 'a

text \<open>
  The loop of \<open>scanIface\<close> over the \<open>select\<close>s that fire, one after the other. A list that
  ends leaves the task blocked in its \<open>select\<close>.
\<close>

fun scanIface_loop :: "Interface \<Rightarrow> IPNet \<Rightarrow> env select list \<Rightarrow> exit \<times> event list" where
  "scanIface_loop iface addr [] = (Blocked, [])"
| "scanIface_loop iface addr (CtxDone # sels) = (Returned, [Log (StopScanner (Name iface))])"
| "scanIface_loop iface addr (Received e # sels) =
     (case writeARP e iface addr of
        Inl p \<Rightarrow> (Panicked p, [])
      | Inr (Some err, evs) \<Rightarrow> (Returned, evs @ [Log (WritingError (Name iface) err)])
      | Inr (None, evs) \<Rightarrow>
          (fst (scanIface_loop iface addr sels), evs @ snd (scanIface_loop iface addr sels)))"

text \<open>
  \<open>ip.To4()\<close> of the standard library: a four-byte address as it is, the last four bytes of
  a sixteen-byte IPv4-mapped address, and \<open>nil\<close> for anything else.
\<close>

definition To4 :: "bytes \<Rightarrow> bytes option" where
  "To4 ip =
     (if length ip = 4 then Some ip
      else if length ip = 16 \<and> list_all (\<lambda>b. b = 0) (take 10 ip)
              \<and> ip ! 10 = 0xff \<and> ip ! 11 = 0xff
      then Some (drop 12 ip)
      else None)"

text \<open>
  The search of \<open>scanIface\<close> for the interface's IPv4 address: the first \<open>*net.IPNet\<close> whose
  \<open>To4\<close> is not \<open>nil\<close>, with the last four bytes of its mask (a slice expression that
  panics on a shorter mask); the zero \<open>net.IPNet\<close> of \<open>new(net.IPNet)\<close>, whose address and
  mask are \<open>nil\<close>, when there is none.
\<close>

fun scanIface_addr :: "Addr list \<Rightarrow> panic + IPNet" where
  "scanIface_addr [] = Inr \<lparr>IP = [], Mask = []\<rparr>"
| "scanIface_addr (AddrOther # addrs) = scanIface_addr addrs"
| "scanIface_addr (AddrIPNet ipnet # addrs) =
     (case To4 (IP ipnet) of
        None \<Rightarrow> scanIface_addr addrs
      | Some ip4 \<Rightarrow>
          (if length (Mask ipnet) < 4 then Inl SliceBoundsOutOfRange
           else Inr \<lparr>IP = ip4, Mask = drop (length (Mask ipnet) - 4) (Mask ipnet)\<rparr>))"

text \<open>
  What lies outside one \<open>scanIface\<close>: the result of \<open>iface.Addrs()\<close>, the error of
  \<open>pcap.OpenLive\<close>, and the \<open>select\<close>s of its loop.
\<close>

record iface_env =
  Addrs :: "string + Addr list"
  OpenLive :: "string option"
  Selects :: "env select list"

text \<open>
  The deferred calls run when the function returns and when it panics: \<open>handle.Close()\<close>
  once the handle is open, then \<open>wg.Done()\<close>.
\<close>

definition deferred :: "exit \<Rightarrow> event list \<Rightarrow> event list" where
  "deferred x evs = (if x = Blocked then [] else evs)"

definition scanIface :: "Interface \<Rightarrow> iface_env \<Rightarrow> exit \<times> event list" where
  "scanIface iface ie =
     (case Addrs ie of
        Inl err \<Rightarrow> (Returned, [Log (AddrsError (Name iface) err), WgDone])
      | Inr addrs \<Rightarrow>
          (if length addrs = 0 then (Returned, [WgDone])
           else
             (case scanIface_addr addrs of
                Inl p \<Rightarrow> (Panicked p, [WgDone])
              | Inr addr \<Rightarrow>
                  (case OpenLive ie of
                     Some err \<Rightarrow> (Returned, [Log (OpenError err), WgDone])
                   | None \<Rightarrow>
                       (let r = scanIface_loop iface addr (Selects ie)
                        in (fst r,
                            [Log (Scanning (Name iface)), GoReadARP] @ snd r
                              @ deferred (fst r) [HandleClose, WgDone]))))))"

text \<open>An address that the search accepts: a \<open>*net.IPNet\<close> whose \<open>To4\<close> is not \<open>nil\<close>.\<close>

definition is_ip4 :: "Addr \<Rightarrow> bool" where
  "is_ip4 a = (case a of AddrIPNet ipnet \<Rightarrow> To4 (IP ipnet) \<noteq> None | AddrOther \<Rightarrow> False)"

section \<open>The reply listener\<close>

text \<open>
  A packet, as far as the listener looks at it: \<open>packet.Layer(layers.LayerTypeARP)\<close>, which
  is \<open>nil\<close> when the frame did not decode to an ARP layer.
\<close>

datatype Packet = Packet (LayerARP: "ARP option")

text \<open>
  The body of the packet case of \<open>readARP\<close>: nothing for a frame without an ARP layer,
  nothing for an ARP layer that is not a reply or whose sender hardware address
  \<open>bytes.Equal\<close>s the interface's, the log line of the discovery otherwise.
\<close>

definition readARP_packet :: "Interface \<Rightarrow> Packet \<Rightarrow> event list" where
  "readARP_packet iface packet =
     (case LayerARP packet of
        None \<Rightarrow> []
      | Some arp \<Rightarrow>
          (if Operation arp \<noteq> ARPReply \<or> HardwareAddr iface = SourceHwAddress arp then []
           else [Log (Found (Name iface) (SourceProtAddress arp) (SourceHwAddress arp))]))"

fun readARP :: "Interface \<Rightarrow> Packet select list \<Rightarrow> exit \<times> event list" where
  "readARP iface [] = (Blocked, [])"
| "readARP iface (CtxDone # sels) = (Returned, [Log (StopReader (Name iface)), WgDone])"
| "readARP iface (Received packet # sels) =
     (fst (readARP iface sels), readARP_packet iface packet @ snd (readARP iface sels))"

section \<open>The scan coordinator\<close>

text \<open>
  The goroutines of \<open>run\<close> share one \<open>sync.WaitGroup\<close> and one context, and nothing
  else. The model keeps the counter of the wait group, the state of the \<open>scanIface\<close> and of
  the \<open>readARP\<close> goroutine of each interface, whether the context is cancelled, whether
  \<open>run\<close> has returned (\<open>main\<close> returns with it, which ends the process) and whether the
  process has died of the panic of a negative counter.
\<close>

datatype task = NotStarted | Running | Finished

record sys =
  wg :: int
  scanners :: "task list"
  readers :: "task list"
  cancelled :: bool
  returned :: bool
  crashed :: bool

text \<open>Why a \<open>scanIface\<close> returns: in its setup, on a failed sweep, or on \<open>ctx.Done()\<close>.\<close>

datatype reason = SetupFailed | WriteFailed | SawDone

text \<open>
  The steps that touch the shared state. \<open>Spawn i\<close> is the body of the loop of \<open>run\<close> for
  the \<open>i\<close>-th interface, \<open>wg.Add(1); go scanIface(ctx, wg, iface)\<close>. \<open>StartReader i\<close> is
  \<open>go readARP(ctx, wg, handle, &iface)\<close> in \<open>scanIface\<close>; the \<open>wg.Add(1)\<close> in front of it
  is commented out in the source, so the step leaves the counter alone.
  \<open>ScannerReturns i why\<close> and \<open>ReaderReturns i\<close> are the returns of the two goroutines,
  each with its deferred \<open>wg.Done()\<close>. \<open>Cancel\<close> closes \<open>ctx.Done()\<close>. \<open>WaitReturns\<close> is the
  return of \<open>wg.Wait()\<close>, after which \<open>run\<close> returns \<open>nil\<close>.
\<close>

datatype action =
    Spawn nat
  | StartReader nat
  | ScannerReturns nat reason
  | ReaderReturns nat
  | Cancel
  | WaitReturns

definition init :: "nat \<Rightarrow> sys" where
  "init n = \<lparr>wg = 0, scanners = replicate n NotStarted, readers = replicate n NotStarted,
              cancelled = False, returned = False, crashed = False\<rparr>"

text \<open>\<open>wg.Done()\<close> is \<open>wg.Add(-1)\<close>, which panics when the counter goes negative.\<close>

definition wgDone :: "sys \<Rightarrow> sys" where
  "wgDone s = s\<lparr>wg := wg s - 1, crashed := (wg s - 1 < 0)\<rparr>"

text \<open>
  \<open>step s a\<close> is the state after the step \<open>a\<close>, and \<open>None\<close> when the program cannot take it
  in \<open>s\<close>: the loop of \<open>run\<close> spawns the interfaces in order; a reader is started by its
  running scanner, once; a scanner returns in its setup only before it starts the reader,
  and on a failed sweep or on \<open>ctx.Done()\<close> only after; a reader returns only on
  \<open>ctx.Done()\<close>; \<open>wg.Wait()\<close> is reached after the loop and returns when the counter is 0.
\<close>

fun step :: "sys \<Rightarrow> action \<Rightarrow> sys option" where
  "step s (Spawn i) =
     (if i < length (scanners s) \<and> scanners s ! i = NotStarted
         \<and> list_all (\<lambda>t. t \<noteq> NotStarted) (take i (scanners s))
      then Some (s\<lparr>wg := wg s + 1, scanners := (scanners s)[i := Running]\<rparr>)
      else None)"
| "step s (StartReader i) =
     (if i < length (scanners s) \<and> i < length (readers s)
         \<and> scanners s ! i = Running \<and> readers s ! i = NotStarted
      then Some (s\<lparr>readers := (readers s)[i := Running]\<rparr>)
      else None)"
| "step s (ScannerReturns i why) =
     (if i < length (scanners s) \<and> i < length (readers s) \<and> scanners s ! i = Running
         \<and> (case why of
               SetupFailed \<Rightarrow> readers s ! i = NotStarted
             | WriteFailed \<Rightarrow> readers s ! i \<noteq> NotStarted
             | SawDone \<Rightarrow> readers s ! i \<noteq> NotStarted \<and> cancelled s)
      then Some (wgDone (s\<lparr>scanners := (scanners s)[i := Finished]\<rparr>))
      else None)"
| "step s (ReaderReturns i) =
     (if i < length (readers s) \<and> readers s ! i = Running \<and> cancelled s
      then Some (wgDone (s\<lparr>readers := (readers s)[i := Finished]\<rparr>))
      else None)"
| "step s Cancel = Some (s\<lparr>cancelled := True\<rparr>)"
| "step s WaitReturns =
     (if list_all (\<lambda>t. t \<noteq> NotStarted) (scanners s) \<and> wg s = 0
      then Some (s\<lparr>returned := True\<rparr>)
      else None)"

text \<open>A schedule is a list of steps; nothing runs once \<open>run\<close> has returned or the process has died.\<close>

fun exec :: "sys \<Rightarrow> action list \<Rightarrow> sys option" where
  "exec s [] = Some s"
| "exec s (a # as) =
     (if returned s \<or> crashed s then None
      else case step s a of None \<Rightarrow> None | Some s' \<Rightarrow> exec s' as)"

text \<open>
  What holds in every state the program can reach with \<open>n\<close> interfaces: the counter is the
  number of running scanners less the number of finished readers (every scanner was
  added once, no reader was), no reader has finished before the cancellation, the
  process has died exactly when the counter is negative, and \<open>wg.Wait()\<close> has returned
  only after the loop, on a counter of 0.
\<close>

definition inv :: "nat \<Rightarrow> sys \<Rightarrow> bool" where
  "inv n s =
     (length (scanners s) = n \<and> length (readers s) = n
      \<and> wg s = int (count_list (scanners s) Running) - int (count_list (readers s) Finished)
      \<and> (\<not> cancelled s \<longrightarrow> count_list (readers s) Finished = 0)
      \<and> crashed s = (wg s < 0)
      \<and> (returned s \<longrightarrow> list_all (\<lambda>t. t \<noteq> NotStarted) (scanners s) \<and> wg s = 0))"

section \<open>Reading a trace\<close>

text \<open>The bytes of the write attempts of a trace, in order.\<close>

fun written :: "event list \<Rightarrow> bytes list" where
  "written [] = []"
| "written (Write b r # evs) = b # written evs"
| "written (ev # evs) = written evs"

text \<open>The serialization attempts of a trace, in order: the layers and the error.\<close>

fun serialized :: "event list \<Rightarrow> (Ethernet \<times> ARP \<times> string option) list" where
  "serialized [] = []"
| "serialized (Serialize eth arp r # evs) = (eth, arp, r) # serialized evs"
| "serialized (ev # evs) = serialized evs"

text \<open>The log lines of a trace, in order.\<close>

fun loglines :: "event list \<Rightarrow> logline list" where
  "loglines [] = []"
| "loglines (Log l # evs) = l # loglines evs"
| "loglines (ev # evs) = loglines evs"

text \<open>
  \<open>guarded ok evs\<close>: every write attempt of the trace comes after a poll of the context
  that found it open, with no other write attempt in between (\<open>ok\<close> tells whether such a
  poll has already been made when the trace starts).
\<close>

fun guarded :: "bool \<Rightarrow> event list \<Rightarrow> bool" where
  "guarded ok [] = True"
| "guarded ok (Poll b # evs) = guarded (\<not> b) evs"
| "guarded ok (Write b r # evs) = (ok \<and> guarded False evs)"
| "guarded ok (ev # evs) = guarded ok evs"

text \<open>The warning of a failed serialization, as a piece of trace.\<close>

definition warn :: "string option \<Rightarrow> event list" where
  "warn serr = (case serr of None \<Rightarrow> [] | Some m \<Rightarrow> [Log (SerializeWarn m)])"

section \<open>Concrete inputs\<close>

text \<open>
  An interface with a six-byte hardware address and the address 192.168.1.10/30, one with
  an eight-byte hardware address, and an IPv6-only address list.
\<close>

definition eth0 :: Interface where
  "eth0 = \<lparr>Name = ''eth0'', HardwareAddr = [0x02, 0, 0, 0, 0, 0x01]\<rparr>"

definition ib0 :: Interface where
  "ib0 = \<lparr>Name = ''ib0'', HardwareAddr = [0x80, 0, 0, 0x02, 0, 0, 0, 0x01]\<rparr>"

definition net30 :: IPNet where
  "net30 = \<lparr>IP = [192, 168, 1, 10], Mask = [255, 255, 255, 252]\<rparr>"

definition addrs_v6 :: "Addr list" where
  "addrs_v6 = [AddrIPNet \<lparr>IP = [0xfe, 0x80, 0, 0, 0, 0, 0, 0, 0, 0, 0, 0, 0, 0, 0, 1],
                          Mask = [255, 255, 255, 255, 255, 255, 255, 255, 0, 0, 0, 0, 0, 0, 0, 0]\<rparr>]"

text \<open>
  The serializer of the packet library, for the concrete inputs. The library is not part
  of the program; this is \<open>gopacket.SerializeLayers(buf, opts, &eth, &arp)\<close> with the
  options of \<open>writeARP\<close> (\<open>FixLengths\<close>, \<open>ComputeChecksums\<close>), as the library does it:
  it clears the buffer, so the result does not depend on what the buffer held, and
  serializes the last layer first.

  The ARP layer takes \<open>8 + len(SourceHwAddress) + len(SourceProtAddress) +
  len(DstHwAddress) + len(DstProtAddress)\<close> bytes at the front of the buffer and only then
  compares the lengths: with different hardware address lengths, or different protocol
  address lengths, it returns an error and leaves those bytes unwritten. Otherwise it
  writes the hardware type, the protocol type, the two address lengths, the operation and
  the four addresses.

  The Ethernet layer returns an error for a destination or source address that is not
  six bytes long, leaving the ARP bytes in the buffer. Otherwise it puts the two
  addresses and the type (for a type other than LLC, with the length field left zero, as
  \<open>writeARP\<close> builds the layer) in front, and pads the frame with zero bytes to 60 bytes.

  Bytes that a failed ARP layer left unwritten are the bytes of the buffer's memory: zero
  in a buffer that no call has written. In a sweep of \<open>writeARP\<close> the lengths of the
  addresses never change, so the calls of a sweep all fail or all succeed
  (lemma \<open>gopacket_SerializeLayers_sweep\<close>), a failed call never follows a successful one,
  and the unwritten bytes are zero in every sweep.
\<close>

definition be16 :: "16 word \<Rightarrow> bytes" where
  "be16 w = [ucast (drop_bit 8 w), ucast w]"

definition arp_size :: "ARP \<Rightarrow> nat" where
  "arp_size arp =
     8 + length (SourceHwAddress arp) + length (SourceProtAddress arp)
       + length (DstHwAddress arp) + length (DstProtAddress arp)"

definition arp_payload :: "ARP \<Rightarrow> bytes" where
  "arp_payload arp =
     be16 (ucast (AddrType arp)) @ be16 (Protocol arp)
       @ [of_nat (length (SourceHwAddress arp)), of_nat (length (SourceProtAddress arp))]
       @ be16 (Operation arp)
       @ SourceHwAddress arp @ SourceProtAddress arp @ DstHwAddress arp @ DstProtAddress arp"

definition ethernet_frame :: "Ethernet \<Rightarrow> bytes \<Rightarrow> bytes" where
  "ethernet_frame eth payload =
     (let b = DstMAC eth @ SrcMAC eth @ be16 (EthernetType eth) @ payload
      in b @ replicate (60 - length b) 0)"

text \<open>\<open>net.HardwareAddr.String()\<close>: two hexadecimal digits for each byte, colons between.\<close>

definition hex_byte :: "byte \<Rightarrow> string" where
  "hex_byte b = [''0123456789abcdef'' ! unat (drop_bit 4 b), ''0123456789abcdef'' ! unat (b AND 0xF)]"

fun mac_string :: "bytes \<Rightarrow> string" where
  "mac_string [] = []"
| "mac_string [b] = hex_byte b"
| "mac_string (b # bs) = hex_byte b @ '':'' @ mac_string bs"

definition gopacket_SerializeLayers :: "bytes \<Rightarrow> Ethernet \<Rightarrow> ARP \<Rightarrow> string option \<times> bytes" where
  "gopacket_SerializeLayers buf eth arp =
     (if length (SourceHwAddress arp) \<noteq> length (DstHwAddress arp)
      then (Some ''mismatched hardware address sizes'', replicate (arp_size arp) 0)
      else if length (SourceProtAddress arp) \<noteq> length (DstProtAddress arp)
      then (Some ''mismatched prot address sizes'', replicate (arp_size arp) 0)
      else if length (DstMAC eth) \<noteq> 6
      then (Some (''invalid dst MAC: '' @ mac_string (DstMAC eth)), arp_payload arp)
      else if length (SrcMAC eth) \<noteq> 6
      then (Some (''invalid src MAC: '' @ mac_string (SrcMAC eth)), arp_payload arp)
      else (None, ethernet_frame eth (arp_payload arp)))"

text \<open>
  Outside worlds for one sweep, all with the library's serializer: nothing else goes
  wrong; the context is done from the \<open>k\<close>-th poll on; the write of the \<open>k\<close>-th iteration
  fails.
\<close>

definition env_ok :: env where
  "env_ok = \<lparr>ctxDone = (\<lambda>i. False), SerializeLayers = gopacket_SerializeLayers,
             WritePacketData = (\<lambda>i b. None)\<rparr>"

definition env_done_from :: "nat \<Rightarrow> env" where
  "env_done_from k = \<lparr>ctxDone = (\<lambda>i. k \<le> i), SerializeLayers = gopacket_SerializeLayers,
             WritePacketData = (\<lambda>i b. None)\<rparr>"

definition env_write_fails :: "nat \<Rightarrow> env" where
  "env_write_fails k = \<lparr>ctxDone = (\<lambda>i. False), SerializeLayers = gopacket_SerializeLayers,
             WritePacketData = (\<lambda>i b. if i = k then Some ''send: Network is down'' else None)\<rparr>"

text \<open>An ARP reply from the given sender, addressed to the first interface.\<close>

definition arp_reply :: "bytes \<Rightarrow> bytes \<Rightarrow> ARP" where
  "arp_reply hw ip =
     \<lparr>AddrType = LinkTypeEthernet, Protocol = EthernetTypeIPv4,
      HwAddressSize = 6, ProtAddressSize = 4, Operation = ARPReply,
      SourceHwAddress = hw, SourceProtAddress = ip,
      DstHwAddress = [0x02, 0, 0, 0, 0, 0x01], DstProtAddress = [192, 168, 1, 10]\<rparr>"

section \<open>Properties of the subnet enumerator\<close>

lemma unat_succ_u32:
  fixes m :: u32
  assumes "m < 0xffffffff"
  shows "unat (m + 1) = Suc (unat m)"
proof -
  from assms have "unat m < 4294967295"
    by (simp add: word_less_nat_alt)
  then have "unat m + unat (1 :: u32) < 2 ^ LENGTH(32)"
    by simp
  then have "unat (m + 1) = unat m + unat (1 :: u32)"
    by (simp only: unat_add_lem)
  then show ?thesis by simp
qed

text \<open>
  The loop appends one address per step, for \<open>0xffffffff - mask\<close> steps, whatever the
  mask is.
\<close>

lemma ips_loop_eq:
  "ips_loop num msk out =
     out @ map (\<lambda>i. PutUint32 (num + of_nat i)) [0..<4294967295 - unat msk]"
proof (induction num msk out rule: ips_loop.induct)
  case (1 num msk out)
  show ?case
  proof (cases "msk < 0xffffffff")
    case True
    then have small: "unat msk < 4294967295"
      by (simp add: word_less_nat_alt)
    have cnt: "4294967295 - unat msk = Suc (4294967295 - unat (msk + 1))"
      using small unat_succ_u32 [OF True] by simp
    have "ips_loop num msk out = ips_loop (num + 1) (msk + 1) (out @ [PutUint32 num])"
      using True by (subst ips_loop.simps) simp
    also have "\<dots> = (out @ [PutUint32 num]) @
        map (\<lambda>i. PutUint32 (num + 1 + of_nat i)) [0..<4294967295 - unat (msk + 1)]"
      using "1.IH" [OF True] .
    also have "\<dots> = out @ map (\<lambda>i. PutUint32 (num + of_nat i)) [0..<4294967295 - unat msk]"
      unfolding cnt by (simp add: upt_conv_Cons map_Suc_upt [symmetric] ac_simps del: upt_Suc)
    finally show ?thesis .
  next
    case False
    then have "unat msk = 4294967295"
      using unsigned_less [of msk, where ?'a = nat] by (simp add: word_less_nat_alt)
    with False show ?thesis
      by (subst ips_loop.simps) simp
  qed
qed

lemma Uint32_PutUint32: "Uint32 (PutUint32 v) = Inr v"
proof -
  have "(ucast (ucast v :: byte) :: u32) OR push_bit 8 (ucast (ucast (drop_bit 8 v) :: byte))
          OR push_bit 16 (ucast (ucast (drop_bit 16 v) :: byte))
          OR push_bit 24 (ucast (ucast (drop_bit 24 v) :: byte)) = v"
  proof (rule bit_word_eqI)
    fix n :: nat
    assume "n < LENGTH(32)"
    then consider "n < 8" | "8 \<le> n" "n < 16" | "16 \<le> n" "n < 24" | "24 \<le> n" "n < 32"
      by fastforce
    then show "bit ((ucast (ucast v :: byte) :: u32)
          OR push_bit 8 (ucast (ucast (drop_bit 8 v) :: byte))
          OR push_bit 16 (ucast (ucast (drop_bit 16 v) :: byte))
          OR push_bit 24 (ucast (ucast (drop_bit 24 v) :: byte))) n = bit v n"
      by cases (auto simp add: bit_simps)
  qed
  then show ?thesis
    by (simp add: Uint32_def PutUint32_def)
qed

lemma unat_add_small:
  fixes x :: u32
  assumes "unat x + i < 4294967296"
  shows "unat (x + of_nat i) = unat x + i"
proof -
  from assms have i: "i < 2 ^ LENGTH(32)" by simp
  have ui: "unat (of_nat i :: u32) = i"
    using i by (simp add: unat_of_nat)
  from assms ui have "unat x + unat (of_nat i :: u32) < 2 ^ LENGTH(32)" by simp
  then have "unat (x + of_nat i) = unat x + unat (of_nat i :: u32)"
    by (simp only: unat_add_lem)
  with ui show ?thesis by simp
qed

lemma unat_and_le: "unat (a AND m) \<le> unat (m :: u32)"
  by (rule word_and_le1 [THEN word_le_nat_alt [THEN iffD1]])

text \<open>
  The output for any mask: the \<open>i\<close>-th address is the big-endian form of \<open>base + i\<close>, there
  are \<open>0xffffffff - mask\<close> of them, and \<open>base + i\<close> never wraps.
\<close>

lemma ips_any_mask:
  assumes num: "Uint32 (IP n) = Inr num" and msk: "Uint32 (Mask n) = Inr msk"
  shows "\<exists>out. ips n = Inr out \<and> length out = 4294967295 - unat msk
           \<and> (\<forall>i < length out. \<exists>w. Uint32 (out ! i) = Inr w \<and> unat w = unat (num AND msk) + i)"
proof -
  let ?out = "map (\<lambda>i. PutUint32 ((num AND msk) + of_nat i)) [0..<4294967295 - unat msk]"
  have run: "ips n = Inr ?out"
    by (simp add: ips_def num msk ips_loop_eq)
  have elem: "\<exists>w. Uint32 (?out ! i) = Inr w \<and> unat w = unat (num AND msk) + i"
    if "i < length ?out" for i
  proof -
    from that have "i < 4294967295 - unat msk" by simp
    with unat_and_le [of num msk] have "unat (num AND msk) + i < 4294967296" by simp
    then have "unat ((num AND msk) + of_nat i) = unat (num AND msk) + i"
      by (rule unat_add_small)
    with that show ?thesis
      by (simp add: Uint32_PutUint32)
  qed
  from run elem show ?thesis
    by (intro exI [of _ ?out]) simp
qed

lemma length_filter_ge_upt: "length (filter (\<lambda>i. k \<le> i) [0..<n]) = n - k"
  by (induction n) (auto simp add: Suc_diff_le)

lemma popcount_CIDRMask:
  assumes "ones \<le> 32"
  shows "popcount (CIDRMask ones) = ones"
proof -
  have "filter (bit (CIDRMask ones)) [0..<32] = filter (\<lambda>i. 32 - ones \<le> i) [0..<32]"
    by (rule filter_cong) (auto simp add: CIDRMask_def bit_simps)
  then have "popcount (CIDRMask ones) = 32 - (32 - ones)"
    by (simp only: popcount_def length_filter_ge_upt)
  with assms show ?thesis by simp
qed

lemma unat_mask_u32:
  assumes "k \<le> 32"
  shows "unat (mask k :: u32) = 2 ^ k - 1"
proof -
  have "uint (mask k :: u32) = mask k"
    using assms by (simp add: uint_mask_eq min_def)
  then have "uint (mask k :: u32) = 2 ^ k - 1"
    by (simp add: mask_eq_exp_minus_1)
  then show ?thesis
    by (simp add: unat_eq_nat_uint nat_diff_distrib nat_power_eq)
qed

lemma unat_CIDRMask:
  assumes "ones \<le> 32"
  shows "4294967295 - unat (CIDRMask ones) = 2 ^ (32 - ones) - 1"
proof -
  have "CIDRMask ones = - 1 - mask (32 - ones)"
    by (simp add: CIDRMask_def not_eq_complement)
  then have "unat (CIDRMask ones) = unat (- 1 :: u32) - unat (mask (32 - ones) :: u32)"
    by (simp add: unat_sub)
  also have "unat (- 1 :: u32) = 4294967295"
    by (simp add: unsigned_minus_1_eq_mask mask_eq_exp_minus_1)
  also have "unat (mask (32 - ones) :: u32) = 2 ^ (32 - ones) - 1"
    by (simp add: unat_mask_u32)
  finally have u: "unat (CIDRMask ones) = 4294967295 - (2 ^ (32 - ones) - 1)" .
  have "(2::nat) ^ (32 - ones) \<le> 2 ^ 32"
    by (rule power_increasing) simp_all
  then have "(2::nat) ^ (32 - ones) - 1 \<le> 4294967295"
    by simp
  with u show ?thesis by simp
qed

text \<open>For a prefix-length mask the number of steps is the claim's count.\<close>

lemma cidr_count:
  assumes "is_cidr_mask msk"
  shows "4294967295 - unat msk = 2 ^ (32 - popcount msk) - 1"
proof -
  from assms obtain ones where "ones < 33" and m: "msk = CIDRMask ones"
    by (auto simp add: is_cidr_mask_def)
  then have "ones \<le> 32"
    by simp
  with m show ?thesis
    by (simp add: unat_CIDRMask popcount_CIDRMask)
qed

text \<open>
  C1 (as the claim states it, for every mask) fails: for the mask 255.255.255.253, whose
  31 one bits are not contiguous, the enumerator returns two addresses, 10.0.0.0 and
  10.0.0.1, where the claim's count \<open>2^(32 - popcount(mask)) - 1\<close> is one.
\<close>

theorem ips_noncontiguous_mask_count:
  "ips \<lparr>IP = [10, 0, 0, 0], Mask = [255, 255, 255, 253]\<rparr> = Inr [[10, 0, 0, 0], [10, 0, 0, 1]]
   \<and> Uint32 [255, 255, 255, 253] = Inr 0xFFFFFFFD
   \<and> length [[10, 0, 0, 0], [10, 0, 0, 1 :: byte]] \<noteq> 2 ^ (32 - popcount 0xFFFFFFFD) - 1"
proof -
  have run: "ips \<lparr>IP = [10, 0, 0, 0], Mask = [255, 255, 255, 253]\<rparr>
      = Inr [[10, 0, 0, 0], [10, 0, 0, 1]]"
    by code_simp
  have msk: "Uint32 [255, 255, 255, 253] = Inr 0xFFFFFFFD"
    by (simp add: Uint32_def)
  have "popcount 0xFFFFFFFD = 31"
    by (simp add: popcount_def upt_rec)
  with run msk show ?thesis
    by simp
qed

text \<open>
  C1, amended to masks of contiguous leading one bits: the enumerator returns
  \<open>2^(32 - popcount(mask)) - 1\<close> addresses; the \<open>i\<close>-th one is the integer \<open>base + i\<close> in
  big-endian bytes, where \<open>base = address AND mask\<close>, so the output is ascending and runs
  from the base address up to \<open>base + 2^(32 - popcount(mask)) - 2\<close>, leaving the broadcast
  address out; for the /32 mask it is empty.
\<close>

theorem ips_enumerates_cidr_subnet:
  assumes num: "Uint32 (IP n) = Inr num" and msk: "Uint32 (Mask n) = Inr msk"
    and cidr: "is_cidr_mask msk"
  shows "\<exists>out. ips n = Inr out \<and> length out = 2 ^ (32 - popcount msk) - 1
           \<and> (\<forall>i < length out. \<exists>w. Uint32 (out ! i) = Inr w \<and> unat w = unat (num AND msk) + i)
           \<and> (msk = 0xffffffff \<longrightarrow> out = [])"
proof -
  from cidr have cnt: "4294967295 - unat msk = 2 ^ (32 - popcount msk) - 1"
    by (rule cidr_count)
  from ips_any_mask [OF num msk] obtain out where
    out: "ips n = Inr out" "length out = 4294967295 - unat msk"
      "\<forall>i < length out. \<exists>w. Uint32 (out ! i) = Inr w \<and> unat w = unat (num AND msk) + i"
    by blast
  have "msk = 0xffffffff \<longrightarrow> out = []"
    using out(2) by auto
  with out cnt show ?thesis
    by (intro exI [of _ out]) simp
qed

theorem ips_enumerates_cidr_subnet_witness:
  "ips \<lparr>IP = [192, 168, 1, 10], Mask = [255, 255, 255, 252]\<rparr>
     = Inr [[192, 168, 1, 8], [192, 168, 1, 9], [192, 168, 1, 10]]
   \<and> (\<exists>out. ips \<lparr>IP = [192, 168, 1, 10], Mask = [255, 255, 255, 252]\<rparr> = Inr out
         \<and> length out = 2 ^ (32 - popcount 0xFFFFFFFC) - 1)"
proof -
  have num: "Uint32 (IP \<lparr>IP = [192, 168, 1, 10], Mask = [255, 255, 255, 252]\<rparr>) = Inr 0xC0A8010A"
    by (simp add: Uint32_def)
  have msk: "Uint32 (Mask \<lparr>IP = [192, 168, 1, 10], Mask = [255, 255, 255, 252]\<rparr>) = Inr 0xFFFFFFFC"
    by (simp add: Uint32_def)
  have cidr: "is_cidr_mask 0xFFFFFFFC"
    unfolding is_cidr_mask_def
    by (rule bexI [of _ 30]) (simp_all add: CIDRMask_def mask_eq_exp_minus_1)
  have run: "ips \<lparr>IP = [192, 168, 1, 10], Mask = [255, 255, 255, 252]\<rparr>
     = Inr [[192, 168, 1, 8], [192, 168, 1, 9], [192, 168, 1, 10]]"
    by code_simp
  from ips_enumerates_cidr_subnet [OF num msk cidr] run show ?thesis
    by blast
qed

section \<open>Properties of a sweep\<close>

lemma written_append: "written (xs @ ys) = written xs @ written ys"
  by (induction xs rule: written.induct) simp_all

lemma serialized_append: "serialized (xs @ ys) = serialized xs @ serialized ys"
  by (induction xs rule: serialized.induct) simp_all

lemma loglines_append: "loglines (xs @ ys) = loglines xs @ loglines ys"
  by (induction xs rule: loglines.induct) simp_all

lemma writeARP_loop_Cons:
  assumes "arp' = arp\<lparr>DstProtAddress := ip\<rparr>" and "SerializeLayers e buf eth arp' = (serr, buf')"
  shows "writeARP_loop e iface eth arp i buf (ip # rest) =
     (if ctxDone e i then (Some Canceled, [Poll True, Log (StopWriter (Name iface))])
      else case WritePacketData e i buf' of
          Some m \<Rightarrow> (Some (Failure m),
             [Poll False, Serialize eth arp' serr] @ warn serr @ [Write buf' (Some m)])
        | None \<Rightarrow> (fst (writeARP_loop e iface eth arp' (Suc i) buf' rest),
             [Poll False, Serialize eth arp' serr] @ warn serr @ [Write buf' None]
              @ snd (writeARP_loop e iface eth arp' (Suc i) buf' rest)))"
  using assms by (simp add: Let_def warn_def split: option.split)

lemma written_warn: "written (warn x @ evs) = written evs"
  by (cases x) (simp_all add: warn_def)
lemma serialized_warn: "serialized (warn x @ evs) = serialized evs"
  by (cases x) (simp_all add: warn_def)
lemma guarded_warn: "guarded ok (warn x @ evs) = guarded ok evs"
  by (cases x) (simp_all add: warn_def)

lemma writeARP_loop_guarded:
  "guarded False (snd (writeARP_loop e iface eth arp i buf cands))"
proof (induction cands arbitrary: arp i buf)
  case Nil
  show ?case by simp
next
  case (Cons ip rest)
  obtain serr buf' where ser: "SerializeLayers e buf eth (arp\<lparr>DstProtAddress := ip\<rparr>) = (serr, buf')"
    by (cases "SerializeLayers e buf eth (arp\<lparr>DstProtAddress := ip\<rparr>)")
  show ?case
    by (simp only: writeARP_loop_Cons [OF refl ser])
       (simp add: guarded_warn Cons.IH split: option.split)
qed

lemma writeARP_loop_length_written:
  "length (written (snd (writeARP_loop e iface eth arp i buf cands)))
     = length (serialized (snd (writeARP_loop e iface eth arp i buf cands)))"
proof (induction cands arbitrary: arp i buf)
  case Nil
  show ?case by simp
next
  case (Cons ip rest)
  obtain serr buf' where ser: "SerializeLayers e buf eth (arp\<lparr>DstProtAddress := ip\<rparr>) = (serr, buf')"
    by (cases "SerializeLayers e buf eth (arp\<lparr>DstProtAddress := ip\<rparr>)")
  show ?case
    by (simp only: writeARP_loop_Cons [OF refl ser])
       (simp add: written_warn serialized_warn Cons.IH split: option.split)
qed

lemma writeARP_loop_cancel_bound:
  "ctxDone e (i + k) \<Longrightarrow> length (written (snd (writeARP_loop e iface eth arp i buf cands))) \<le> k"
proof (induction cands arbitrary: arp i buf k)
  case Nil
  show ?case by simp
next
  case (Cons ip rest)
  show ?case
  proof (cases k)
    case 0
    with Cons.prems show ?thesis by simp
  next
    case (Suc j)
    with Cons.prems have "ctxDone e (Suc i + j)" by simp
    obtain serr buf' where ser: "SerializeLayers e buf eth (arp\<lparr>DstProtAddress := ip\<rparr>) = (serr, buf')"
      by (cases "SerializeLayers e buf eth (arp\<lparr>DstProtAddress := ip\<rparr>)")
    from Cons.IH [OF \<open>ctxDone e (Suc i + j)\<close>] Suc show ?thesis
      by (simp only: writeARP_loop_Cons [OF refl ser])
         (simp add: written_warn split: option.split)
  qed
qed

lemma writeARP_loop_complete:
  assumes "\<forall>j. \<not> ctxDone e j" and "\<forall>j b. WritePacketData e j b = None"
  shows "fst (writeARP_loop e iface eth arp i buf cands) = None
       \<and> map (\<lambda>(eth', arp', r). (eth', DstProtAddress arp')) (serialized (snd (writeARP_loop e iface eth arp i buf cands))) = map (Pair eth) cands
       \<and> length (written (snd (writeARP_loop e iface eth arp i buf cands))) = length cands"
  using assms
proof (induction cands arbitrary: arp i buf)
  case Nil
  show ?case by simp
next
  case (Cons ip rest)
  obtain serr buf' where ser: "SerializeLayers e buf eth (arp\<lparr>DstProtAddress := ip\<rparr>) = (serr, buf')"
    by (cases "SerializeLayers e buf eth (arp\<lparr>DstProtAddress := ip\<rparr>)")
  from Cons.IH [OF Cons.prems] Cons.prems show ?case
    by (simp only: writeARP_loop_Cons [OF refl ser])
       (simp add: written_warn serialized_warn)
qed


lemma writeARP_loop_layers:
  "map (\<lambda>(eth', arp', x). (eth', arp')) (serialized (snd (writeARP_loop e iface eth arp i buf cands)))
     = map (\<lambda>ip. (eth, arp\<lparr>DstProtAddress := ip\<rparr>))
         (take (length (serialized (snd (writeARP_loop e iface eth arp i buf cands)))) cands)"
proof (induction cands arbitrary: arp i buf)
  case Nil
  show ?case by simp
next
  case (Cons ip rest)
  obtain serr buf' where ser: "SerializeLayers e buf eth (arp\<lparr>DstProtAddress := ip\<rparr>) = (serr, buf')"
    by (cases "SerializeLayers e buf eth (arp\<lparr>DstProtAddress := ip\<rparr>)")
  show ?case
    using Cons.IH [of "arp\<lparr>DstProtAddress := ip\<rparr>" "Suc i" buf']
    by (simp only: writeARP_loop_Cons [OF refl ser])
       (simp add: serialized_warn split: option.split)
qed

lemma writeARP_loop_done_first:
  "ctxDone e i \<Longrightarrow> writeARP_loop e iface eth arp i buf cands
      = (if cands = [] then (None, []) else (Some Canceled, [Poll True, Log (StopWriter (Name iface))]))"
  by (cases cands) simp_all

lemma readARP_packets:
  "readARP iface (map Received packets @ sels)
     = (fst (readARP iface sels), concat (map (readARP_packet iface) packets) @ snd (readARP iface sels))"
  by (induction packets) simp_all

lemma writeARP_loop_buffer:
  "\<forall>k < length (written (snd (writeARP_loop e iface eth arp i buf cands))).
      (snd (snd (serialized (snd (writeARP_loop e iface eth arp i buf cands)) ! k)),
       written (snd (writeARP_loop e iface eth arp i buf cands)) ! k)
      = SerializeLayers e
          (if k = 0 then buf else written (snd (writeARP_loop e iface eth arp i buf cands)) ! (k - 1))
          (fst (serialized (snd (writeARP_loop e iface eth arp i buf cands)) ! k))
          (fst (snd (serialized (snd (writeARP_loop e iface eth arp i buf cands)) ! k)))"
proof (induction cands arbitrary: arp i buf)
  case Nil
  show ?case by simp
next
  case (Cons ip rest)
  obtain serr buf' where ser: "SerializeLayers e buf eth (arp\<lparr>DstProtAddress := ip\<rparr>) = (serr, buf')"
    by (cases "SerializeLayers e buf eth (arp\<lparr>DstProtAddress := ip\<rparr>)")
  show ?case
  proof (intro allI impI)
    fix k
    assume k: "k < length (written (snd (writeARP_loop e iface eth arp i buf (ip # rest))))"
    show "(snd (snd (serialized (snd (writeARP_loop e iface eth arp i buf (ip # rest))) ! k)),
       written (snd (writeARP_loop e iface eth arp i buf (ip # rest))) ! k)
      = SerializeLayers e
          (if k = 0 then buf else written (snd (writeARP_loop e iface eth arp i buf (ip # rest))) ! (k - 1))
          (fst (serialized (snd (writeARP_loop e iface eth arp i buf (ip # rest))) ! k))
          (fst (snd (serialized (snd (writeARP_loop e iface eth arp i buf (ip # rest))) ! k)))"
    proof (cases k)
      case 0
      with k ser show ?thesis
        by (simp only: writeARP_loop_Cons [OF refl ser])
           (simp add: written_warn serialized_warn split: option.splits if_splits)
    next
      case (Suc j)
      with k Cons.IH [of "arp\<lparr>DstProtAddress := ip\<rparr>" "Suc i" buf', rule_format, of j]
      show ?thesis
        by (simp only: writeARP_loop_Cons [OF refl ser])
           (cases j; simp add: written_warn serialized_warn split: option.splits if_splits)
    qed
  qed
qed

lemma writeARP_Inr:
  "ips addr = Inr cands \<Longrightarrow>
     writeARP e iface addr
       = Inr (writeARP_loop e iface (writeARP_eth iface) (writeARP_arp iface addr) 0 [] cands)"
  by (simp add: writeARP_def)

lemma ips_net30: "ips net30 = Inr [[192, 168, 1, 8], [192, 168, 1, 9], [192, 168, 1, 10]]"
  by code_simp

lemma writeARP_loop_result:
  "fst (writeARP_loop e iface eth arp i buf cands) = None
   \<or> (fst (writeARP_loop e iface eth arp i buf cands) = Some Canceled \<and> (\<exists>j. ctxDone e j))
   \<or> (\<exists>m j b. fst (writeARP_loop e iface eth arp i buf cands) = Some (Failure m)
                \<and> WritePacketData e j b = Some m)"
proof (induction cands arbitrary: arp i buf)
  case Nil
  show ?case by simp
next
  case (Cons ip rest)
  obtain serr buf' where ser: "SerializeLayers e buf eth (arp\<lparr>DstProtAddress := ip\<rparr>) = (serr, buf')"
    by (cases "SerializeLayers e buf eth (arp\<lparr>DstProtAddress := ip\<rparr>)")
  show ?case
  proof (cases "ctxDone e i")
    case True
    then show ?thesis
      by (simp only: writeARP_loop_Cons [OF refl ser]) auto
  next
    case False
    show ?thesis
    proof (cases "WritePacketData e i buf'")
      case None
      with False Cons.IH [of "arp\<lparr>DstProtAddress := ip\<rparr>" "Suc i" buf'] show ?thesis
        by (simp only: writeARP_loop_Cons [OF refl ser]) simp
    next
      case (Some m)
      with False show ?thesis
        by (simp only: writeARP_loop_Cons [OF refl ser]) auto
    qed
  qed
qed

lemma loglines_warn:
  "loglines (warn x @ evs) = loglines (warn x) @ loglines evs"
  by (rule loglines_append)

lemma writeARP_loop_loglines:
  "loglines (snd (writeARP_loop e iface eth arp i buf cands))
     = loglines (concat (map (\<lambda>(eth', arp', x). warn x)
         (serialized (snd (writeARP_loop e iface eth arp i buf cands)))))
       @ (if fst (writeARP_loop e iface eth arp i buf cands) = Some Canceled
          then [StopWriter (Name iface)] else [])"
proof (induction cands arbitrary: arp i buf)
  case Nil
  show ?case by simp
next
  case (Cons ip rest)
  obtain serr buf' where ser: "SerializeLayers e buf eth (arp\<lparr>DstProtAddress := ip\<rparr>) = (serr, buf')"
    by (cases "SerializeLayers e buf eth (arp\<lparr>DstProtAddress := ip\<rparr>)")
  show ?case
    using Cons.IH [of "arp\<lparr>DstProtAddress := ip\<rparr>" "Suc i" buf']
    by (simp only: writeARP_loop_Cons [OF refl ser])
       (simp add: serialized_warn loglines_append split: option.split)
qed

lemma writeARP_loop_targets:
  assumes "\<forall>j. \<not> ctxDone e j" and "\<forall>j b. WritePacketData e j b = None"
  shows "map (\<lambda>(eth', arp', x). DstProtAddress arp')
           (serialized (snd (writeARP_loop e iface eth arp i buf cands))) = cands"
proof -
  from writeARP_loop_complete [OF assms]
  have c: "map (\<lambda>(eth', arp', r). (eth', DstProtAddress arp'))
             (serialized (snd (writeARP_loop e iface eth arp i buf cands)))
       = map (Pair eth) cands"
    by blast
  have "map (\<lambda>(eth', arp', x). DstProtAddress arp')
           (serialized (snd (writeARP_loop e iface eth arp i buf cands)))
      = map snd (map (\<lambda>(eth', arp', r). (eth', DstProtAddress arp'))
           (serialized (snd (writeARP_loop e iface eth arp i buf cands))))"
    by (simp add: comp_def split_def)
  also have "\<dots> = cands"
    unfolding c by (simp add: comp_def)
  finally show ?thesis .
qed

text \<open>
  With the library's serializer the calls of a sweep of \<open>writeARP\<close> all fail or all
  succeed: the answer depends on the lengths of the interface's hardware address and of
  its protocol address only.
\<close>

lemma gopacket_SerializeLayers_sweep:
  assumes "length ip = 4"
  shows "fst (gopacket_SerializeLayers buf (writeARP_eth iface)
                ((writeARP_arp iface addr)\<lparr>DstProtAddress := ip\<rparr>))
     = (if length (HardwareAddr iface) \<noteq> 6 then Some ''mismatched hardware address sizes''
        else if length (IP addr) \<noteq> 4 then Some ''mismatched prot address sizes''
        else None)"
  using assms by (simp add: gopacket_SerializeLayers_def writeARP_eth_def writeARP_arp_def)

text \<open>A sweep that returns \<open>nil\<close> has serialized and written every candidate, in order.\<close>

lemma writeARP_loop_None:
  "fst (writeARP_loop e iface eth arp i buf cands) = None \<Longrightarrow>
     map (\<lambda>(eth', arp', x). DstProtAddress arp')
        (serialized (snd (writeARP_loop e iface eth arp i buf cands))) = cands
     \<and> length (written (snd (writeARP_loop e iface eth arp i buf cands))) = length cands"
proof (induction cands arbitrary: arp i buf)
  case Nil
  show ?case by simp
next
  case (Cons ip rest)
  obtain serr buf' where ser: "SerializeLayers e buf eth (arp\<lparr>DstProtAddress := ip\<rparr>) = (serr, buf')"
    by (cases "SerializeLayers e buf eth (arp\<lparr>DstProtAddress := ip\<rparr>)")
  from Cons.prems Cons.IH [of "arp\<lparr>DstProtAddress := ip\<rparr>" "Suc i" buf'] show ?case
    by (simp only: writeARP_loop_Cons [OF refl ser])
       (auto simp add: written_warn serialized_warn split: option.splits if_splits)
qed

text \<open>After a sweep that returned \<open>nil\<close> the driver goes back to its \<open>select\<close>.\<close>

lemma scanIface_loop_sweep_done:
  "writeARP e iface addr = Inr (None, evs) \<Longrightarrow>
     scanIface_loop iface addr (Received e # sels)
       = (fst (scanIface_loop iface addr sels), evs @ snd (scanIface_loop iface addr sels))"
  by simp

section \<open>The claims about the probe driver\<close>

text \<open>
  C4: in a sweep every write attempt comes after a poll of the context that found it
  open, so a context that is done at the \<open>k\<close>-th poll leaves at most the \<open>k\<close> writes
  before it; when the context is done before the sweep starts, the sweep writes
  nothing, and the driver returns: from the sweep itself, with \<open>context.Canceled\<close>, when
  there are candidates, and from its next \<open>select\<close> on \<open>ctx.Done()\<close> when there are none.
\<close>

theorem writeARP_polls_context_before_each_write:
  assumes "ips addr = Inr cands"
  shows "\<exists>r evs. writeARP e iface addr = Inr (r, evs)
           \<and> guarded False evs
           \<and> (\<forall>k. ctxDone e k \<longrightarrow> length (written evs) \<le> k)
           \<and> (ctxDone e 0 \<longrightarrow>
                 written evs = []
                 \<and> fst (scanIface_loop iface addr (Received e # CtxDone # sels)) = Returned
                 \<and> written (snd (scanIface_loop iface addr (Received e # CtxDone # sels))) = []
                 \<and> (cands \<noteq> [] \<longrightarrow>
                       r = Some Canceled
                       \<and> scanIface_loop iface addr (Received e # sels)
                           = (Returned, [Poll True, Log (StopWriter (Name iface)),
                                         Log (WritingError (Name iface) Canceled)])))"
proof -
  let ?loop = "writeARP_loop e iface (writeARP_eth iface) (writeARP_arp iface addr) 0 [] cands"
  have run: "writeARP e iface addr = Inr (fst ?loop, snd ?loop)"
    using assms by (simp add: writeARP_Inr)
  have g: "guarded False (snd ?loop)"
    by (rule writeARP_loop_guarded)
  have bound: "\<forall>k. ctxDone e k \<longrightarrow> length (written (snd ?loop)) \<le> k"
    using writeARP_loop_cancel_bound [of e 0] by simp
  have first: "ctxDone e 0 \<longrightarrow>
                 written (snd ?loop) = []
                 \<and> fst (scanIface_loop iface addr (Received e # CtxDone # sels)) = Returned
                 \<and> written (snd (scanIface_loop iface addr (Received e # CtxDone # sels))) = []
                 \<and> (cands \<noteq> [] \<longrightarrow>
                       fst ?loop = Some Canceled
                       \<and> scanIface_loop iface addr (Received e # sels)
                           = (Returned, [Poll True, Log (StopWriter (Name iface)),
                                         Log (WritingError (Name iface) Canceled)]))"
    using assms by (simp add: writeARP_Inr writeARP_loop_done_first)
  from run g bound first show ?thesis
    by blast
qed

theorem writeARP_polls_context_before_each_write_witness:
  "\<exists>r evs. writeARP (env_done_from 0) eth0 net30 = Inr (r, evs)
      \<and> guarded False evs \<and> written evs = [] \<and> r = Some Canceled
      \<and> scanIface_loop eth0 net30 [Received (env_done_from 0)]
           = (Returned, [Poll True, Log (StopWriter (Name eth0)),
                         Log (WritingError (Name eth0) Canceled)])"
proof -
  have d: "ctxDone (env_done_from 0) 0"
    by (simp add: env_done_from_def)
  from writeARP_polls_context_before_each_write [OF ips_net30, of "env_done_from 0" eth0 "[]"] d
  show ?thesis
    by auto
qed

text \<open>
  C5 (as the claim states it) fails: a candidate whose serialization fails is not
  skipped. On the interface \<open>ib0\<close>, whose hardware address has eight bytes, the library
  refuses every frame of the sweep over 192.168.1.10/30 (the ARP layer's sender and target
  hardware addresses differ in length); each refusal is logged, and each is followed by
  a write all the same, of the 30 bytes that the failed call left in the buffer.
\<close>

theorem failed_serialization_is_written:
  "writeARP env_ok ib0 net30 = Inr (None,
     [Poll False,
      Serialize (writeARP_eth ib0) ((writeARP_arp ib0 net30)\<lparr>DstProtAddress := [192, 168, 1, 8]\<rparr>)
        (Some ''mismatched hardware address sizes''),
      Log (SerializeWarn ''mismatched hardware address sizes''),
      Write (replicate 30 0) None,
      Poll False,
      Serialize (writeARP_eth ib0) ((writeARP_arp ib0 net30)\<lparr>DstProtAddress := [192, 168, 1, 9]\<rparr>)
        (Some ''mismatched hardware address sizes''),
      Log (SerializeWarn ''mismatched hardware address sizes''),
      Write (replicate 30 0) None,
      Poll False,
      Serialize (writeARP_eth ib0) ((writeARP_arp ib0 net30)\<lparr>DstProtAddress := [192, 168, 1, 10]\<rparr>)
        (Some ''mismatched hardware address sizes''),
      Log (SerializeWarn ''mismatched hardware address sizes''),
      Write (replicate 30 0) None])"
  by code_simp

text \<open>
  C5, amended: a serialization error is logged and the candidate is written all the
  same, with the bytes that the failed call left in the buffer, and the error does not
  end the sweep. For every sweep: \<open>writeARP\<close> returns \<open>nil\<close>, or \<open>context.Canceled\<close> after
  a poll that found the context done, or the error of a failed write, never the
  serializer's; its log lines are the warnings of the failed serializations, and the stop
  notice when it was cancelled; every serialization attempt, failed or not, is followed
  by one write, which carries the bytes the serializer left in the buffer (that held
  the bytes of the previous write before, and nothing before the first). A sweep that
  returns \<open>nil\<close> has serialized and written every candidate, in order, and the driver
  goes back to its \<open>select\<close>; without cancellation and without a failed write the
  sweep returns \<open>nil\<close>.
\<close>

theorem serialization_error_is_logged_and_written:
  assumes "ips addr = Inr cands"
  shows "\<exists>r evs. writeARP e iface addr = Inr (r, evs)
      \<and> (r = None \<or> (r = Some Canceled \<and> (\<exists>j. ctxDone e j))
           \<or> (\<exists>m j b. r = Some (Failure m) \<and> WritePacketData e j b = Some m))
      \<and> loglines evs
           = loglines (concat (map (\<lambda>(eth, arp, x). warn x) (serialized evs)))
             @ (if r = Some Canceled then [StopWriter (Name iface)] else [])
      \<and> length (written evs) = length (serialized evs)
      \<and> (\<forall>k < length (written evs).
            (snd (snd (serialized evs ! k)), written evs ! k)
              = SerializeLayers e (if k = 0 then [] else written evs ! (k - 1))
                  (fst (serialized evs ! k)) (fst (snd (serialized evs ! k))))
      \<and> (r = None \<longrightarrow>
            map (\<lambda>(eth, arp, x). DstProtAddress arp) (serialized evs) = cands
            \<and> length (written evs) = length cands
            \<and> scanIface_loop iface addr (Received e # sels)
                = (fst (scanIface_loop iface addr sels),
                   evs @ snd (scanIface_loop iface addr sels)))
      \<and> ((\<forall>j. \<not> ctxDone e j) \<and> (\<forall>j b. WritePacketData e j b = None) \<longrightarrow> r = None)"
proof -
  let ?loop = "writeARP_loop e iface (writeARP_eth iface) (writeARP_arp iface addr) 0 [] cands"
  have run: "writeARP e iface addr = Inr (fst ?loop, snd ?loop)"
    using assms by (simp add: writeARP_Inr)
  have res: "fst ?loop = None \<or> (fst ?loop = Some Canceled \<and> (\<exists>j. ctxDone e j))
           \<or> (\<exists>m j b. fst ?loop = Some (Failure m) \<and> WritePacketData e j b = Some m)"
    by (rule writeARP_loop_result)
  have logs: "loglines (snd ?loop)
           = loglines (concat (map (\<lambda>(eth, arp, x). warn x) (serialized (snd ?loop))))
             @ (if fst ?loop = Some Canceled then [StopWriter (Name iface)] else [])"
    by (rule writeARP_loop_loglines)
  have len: "length (written (snd ?loop)) = length (serialized (snd ?loop))"
    by (rule writeARP_loop_length_written)
  have buf: "\<forall>k < length (written (snd ?loop)).
            (snd (snd (serialized (snd ?loop) ! k)), written (snd ?loop) ! k)
              = SerializeLayers e (if k = 0 then [] else written (snd ?loop) ! (k - 1))
                  (fst (serialized (snd ?loop) ! k)) (fst (snd (serialized (snd ?loop) ! k)))"
    by (rule writeARP_loop_buffer)
  have goes_on: "fst ?loop = None \<longrightarrow>
            map (\<lambda>(eth, arp, x). DstProtAddress arp) (serialized (snd ?loop)) = cands
            \<and> length (written (snd ?loop)) = length cands
            \<and> scanIface_loop iface addr (Received e # sels)
                = (fst (scanIface_loop iface addr sels),
                   snd ?loop @ snd (scanIface_loop iface addr sels))"
  proof
    assume n: "fst ?loop = None"
    with run have "writeARP e iface addr = Inr (None, snd ?loop)"
      by simp
    then have "scanIface_loop iface addr (Received e # sels)
                = (fst (scanIface_loop iface addr sels),
                   snd ?loop @ snd (scanIface_loop iface addr sels))"
      by (rule scanIface_loop_sweep_done)
    with writeARP_loop_None [OF n]
    show "map (\<lambda>(eth, arp, x). DstProtAddress arp) (serialized (snd ?loop)) = cands
            \<and> length (written (snd ?loop)) = length cands
            \<and> scanIface_loop iface addr (Received e # sels)
                = (fst (scanIface_loop iface addr sels),
                   snd ?loop @ snd (scanIface_loop iface addr sels))"
      by simp
  qed
  have full: "(\<forall>j. \<not> ctxDone e j) \<and> (\<forall>j b. WritePacketData e j b = None) \<longrightarrow>
            fst ?loop = None"
    using writeARP_loop_complete [of e iface "writeARP_eth iface" "writeARP_arp iface addr" 0 "[]" cands]
    by blast
  show ?thesis
    using run res logs len buf goes_on full
    by (intro exI [of _ "fst ?loop"] exI [of _ "snd ?loop"] conjI)
qed

theorem serialization_error_is_logged_and_written_witness:
  "\<exists>r evs. writeARP env_ok ib0 net30 = Inr (r, evs)
      \<and> r = None
      \<and> map (\<lambda>(eth, arp, x). DstProtAddress arp) (serialized evs)
           = [[192, 168, 1, 8], [192, 168, 1, 9], [192, 168, 1, 10]]
      \<and> length (written evs) = 3"
proof -
  have a: "\<forall>j. \<not> ctxDone env_ok j"
    by (simp add: env_ok_def)
  have b: "\<forall>j b. WritePacketData env_ok j b = None"
    by (simp add: env_ok_def)
  from serialization_error_is_logged_and_written [OF ips_net30, of env_ok ib0 "[]"]
  obtain r evs where run: "writeARP env_ok ib0 net30 = Inr (r, evs)"
    and goes_on: "r = None \<longrightarrow>
            map (\<lambda>(eth, arp, x). DstProtAddress arp) (serialized evs)
              = [[192, 168, 1, 8], [192, 168, 1, 9], [192, 168, 1, 10]]
            \<and> length (written evs) = length [[192, 168, 1, 8], [192, 168, 1, 9], [192, 168, 1, 10 :: byte]]
            \<and> scanIface_loop ib0 net30 [Received env_ok]
                = (fst (scanIface_loop ib0 net30 []), evs @ snd (scanIface_loop ib0 net30 []))"
    and full: "(\<forall>j. \<not> ctxDone env_ok j) \<and> (\<forall>j b. WritePacketData env_ok j b = None) \<longrightarrow> r = None"
    apply (elim exE conjE)
    apply (rule that)
      apply assumption
     apply assumption
    apply assumption
    done
  from full a b have n: "r = None"
    by blast
  with goes_on have t: "map (\<lambda>(eth, arp, x). DstProtAddress arp) (serialized evs)
              = [[192, 168, 1, 8], [192, 168, 1, 9], [192, 168, 1, 10]]"
    and l: "length (written evs) = 3"
    by simp_all
  show ?thesis
    using run n t l by (intro exI [of _ r] exI [of _ evs] conjI)
qed

text \<open>
  C7: the layers that \<open>writeARP\<close> hands to the serializer are, candidate after candidate
  in the order of \<open>ips(addr)\<close>: an Ethernet layer from the interface's hardware address to
  the broadcast address with type ARP, and an ARP layer with hardware type Ethernet,
  protocol type IPv4, sizes 6 and 4, operation request, the interface's hardware and
  protocol address as sender, a zero target hardware address and the candidate as target
  protocol address.
\<close>

theorem writeARP_request_frames:
  assumes "writeARP e iface addr = Inr (r, evs)"
  shows "\<exists>cands. ips addr = Inr cands
      \<and> map (\<lambda>(eth, arp, x). (eth, arp)) (serialized evs)
          = map (\<lambda>ip. (\<lparr>SrcMAC = HardwareAddr iface,
                         DstMAC = [0xff, 0xff, 0xff, 0xff, 0xff, 0xff],
                         EthernetType = EthernetTypeARP\<rparr>,
                        \<lparr>AddrType = LinkTypeEthernet,
                         Protocol = EthernetTypeIPv4,
                         HwAddressSize = 6,
                         ProtAddressSize = 4,
                         Operation = ARPRequest,
                         SourceHwAddress = HardwareAddr iface,
                         SourceProtAddress = IP addr,
                         DstHwAddress = [0, 0, 0, 0, 0, 0],
                         DstProtAddress = ip\<rparr>))
              (take (length (serialized evs)) cands)"
proof -
  from assms obtain cands where c: "ips addr = Inr cands"
    by (cases "ips addr") (simp_all add: writeARP_def)
  with assms have evs: "evs = snd (writeARP_loop e iface (writeARP_eth iface) (writeARP_arp iface addr) 0 [] cands)"
    by (simp add: writeARP_Inr prod_eq_iff)
  have "map (\<lambda>(eth, arp, x). (eth, arp)) (serialized evs)
          = map (\<lambda>ip. (writeARP_eth iface, (writeARP_arp iface addr)\<lparr>DstProtAddress := ip\<rparr>))
              (take (length (serialized evs)) cands)"
    unfolding evs by (rule writeARP_loop_layers)
  with c show ?thesis
    by (simp add: writeARP_eth_def writeARP_arp_def)
qed

theorem writeARP_request_frames_witness:
  "\<exists>r evs. writeARP env_ok eth0 net30 = Inr (r, evs)
      \<and> map (\<lambda>(eth, arp, x). (eth, arp)) (serialized evs)
          = map (\<lambda>ip. (\<lparr>SrcMAC = HardwareAddr eth0,
                         DstMAC = [0xff, 0xff, 0xff, 0xff, 0xff, 0xff],
                         EthernetType = EthernetTypeARP\<rparr>,
                        \<lparr>AddrType = LinkTypeEthernet,
                         Protocol = EthernetTypeIPv4,
                         HwAddressSize = 6,
                         ProtAddressSize = 4,
                         Operation = ARPRequest,
                         SourceHwAddress = HardwareAddr eth0,
                         SourceProtAddress = IP net30,
                         DstHwAddress = [0, 0, 0, 0, 0, 0],
                         DstProtAddress = ip\<rparr>))
              [[192, 168, 1, 8], [192, 168, 1, 9], [192, 168, 1, 10]]"
proof -
  obtain r evs where run: "writeARP env_ok eth0 net30 = Inr (r, evs)"
    using writeARP_Inr [OF ips_net30, of env_ok eth0] by (metis prod.collapse)
  have "length (serialized (snd (projr (writeARP env_ok eth0 net30)))) = 3"
    by code_simp
  with run have n: "length (serialized evs) = 3"
    by simp
  from writeARP_request_frames [OF run] ips_net30 n
  have "map (\<lambda>(eth, arp, x). (eth, arp)) (serialized evs)
          = map (\<lambda>ip. (\<lparr>SrcMAC = HardwareAddr eth0,
                         DstMAC = [0xff, 0xff, 0xff, 0xff, 0xff, 0xff],
                         EthernetType = EthernetTypeARP\<rparr>,
                        \<lparr>AddrType = LinkTypeEthernet,
                         Protocol = EthernetTypeIPv4,
                         HwAddressSize = 6,
                         ProtAddressSize = 4,
                         Operation = ARPRequest,
                         SourceHwAddress = HardwareAddr eth0,
                         SourceProtAddress = IP net30,
                         DstHwAddress = [0, 0, 0, 0, 0, 0],
                         DstProtAddress = ip\<rparr>))
              [[192, 168, 1, 8], [192, 168, 1, 9], [192, 168, 1, 10]]"
    by simp
  with run show ?thesis
    by blast
qed




section \<open>The claim about the reply listener\<close>

text \<open>
  C3: for a received frame the listener emits something exactly when the frame has an ARP
  layer whose operation is reply and whose sender hardware address differs from the
  interface's; what it emits then is the one log line with the sender's protocol and
  hardware address. Over any run of frames the listener's trace is those lines in order,
  followed by the stop notice once \<open>ctx.Done()\<close> fires.
\<close>

theorem readARP_reports_foreign_replies_only:
  "(readARP_packet iface packet \<noteq> []) =
      (\<exists>arp. LayerARP packet = Some arp \<and> Operation arp = ARPReply
             \<and> SourceHwAddress arp \<noteq> HardwareAddr iface)
   \<and> (\<forall>arp. LayerARP packet = Some arp \<and> Operation arp = ARPReply
             \<and> SourceHwAddress arp \<noteq> HardwareAddr iface \<longrightarrow>
          readARP_packet iface packet
            = [Log (Found (Name iface) (SourceProtAddress arp) (SourceHwAddress arp))])
   \<and> readARP iface (map Received packets @ CtxDone # sels)
       = (Returned, concat (map (readARP_packet iface) packets)
                      @ [Log (StopReader (Name iface)), WgDone])
   \<and> readARP iface (map Received packets)
       = (Blocked, concat (map (readARP_packet iface) packets))"
proof -
  have iff: "(readARP_packet iface packet \<noteq> []) =
      (\<exists>arp. LayerARP packet = Some arp \<and> Operation arp = ARPReply
             \<and> SourceHwAddress arp \<noteq> HardwareAddr iface)"
    by (cases "LayerARP packet") (auto simp add: readARP_packet_def)
  have line: "\<forall>arp. LayerARP packet = Some arp \<and> Operation arp = ARPReply
             \<and> SourceHwAddress arp \<noteq> HardwareAddr iface \<longrightarrow>
          readARP_packet iface packet
            = [Log (Found (Name iface) (SourceProtAddress arp) (SourceHwAddress arp))]"
    by (auto simp add: readARP_packet_def)
  have stop: "readARP iface (map Received packets @ CtxDone # sels)
       = (Returned, concat (map (readARP_packet iface) packets)
                      @ [Log (StopReader (Name iface)), WgDone])"
    by (simp add: readARP_packets)
  have blocked: "readARP iface (map Received packets)
       = (Blocked, concat (map (readARP_packet iface) packets))"
    using readARP_packets [of iface packets "[]"] by simp
  from iff line stop blocked show ?thesis
    by (intro conjI)
qed

theorem readARP_reports_foreign_replies_only_witness:
  "readARP eth0
     [Received (Packet (Some (arp_reply [0x02, 0, 0, 0, 0, 0x09] [192, 168, 1, 9]))),
      Received (Packet (Some (arp_reply [0x02, 0, 0, 0, 0, 0x01] [192, 168, 1, 10]))),
      Received (Packet (Some ((arp_reply [0x02, 0, 0, 0, 0, 0x08] [192, 168, 1, 8])\<lparr>Operation := ARPRequest\<rparr>))),
      Received (Packet None),
      CtxDone]
   = (Returned,
      [Log (Found ''eth0'' [192, 168, 1, 9] [0x02, 0, 0, 0, 0, 0x09]),
       Log (StopReader ''eth0''), WgDone])"
proof -
  let ?ps = "[Packet (Some (arp_reply [0x02, 0, 0, 0, 0, 0x09] [192, 168, 1, 9])),
      Packet (Some (arp_reply [0x02, 0, 0, 0, 0, 0x01] [192, 168, 1, 10])),
      Packet (Some ((arp_reply [0x02, 0, 0, 0, 0, 0x08] [192, 168, 1, 8])\<lparr>Operation := ARPRequest\<rparr>)),
      Packet None]"
  from readARP_reports_foreign_replies_only [of eth0 "Packet None" ?ps "[]"]
  have "readARP eth0 (map Received ?ps @ [CtxDone])
       = (Returned, concat (map (readARP_packet eth0) ?ps) @ [Log (StopReader (Name eth0)), WgDone])"
    by blast
  then show ?thesis
    by (simp add: readARP_packet_def arp_reply_def eth0_def ARPReply_def ARPRequest_def)
qed

section \<open>The claim about the enumerator's panic\<close>

lemma scanIface_addr_none:
  "list_all (\<lambda>a. \<not> is_ip4 a) addrs \<Longrightarrow> scanIface_addr addrs = Inr \<lparr>IP = [], Mask = []\<rparr>"
  by (induction addrs rule: scanIface_addr.induct) (simp_all add: is_ip4_def)

lemma ips_defined_iff:
  "(\<exists>out. ips n = Inr out) = (4 \<le> length (IP n) \<and> 4 \<le> length (Mask n))"
  by (auto simp add: ips_def Uint32_def)

text \<open>
  C9: \<open>ips\<close> returns exactly when the address and the mask both have at least four bytes,
  and panics with an index out of range otherwise; an address list that is not empty and
  holds no IPv4 address leaves \<open>scanIface\<close> with the zero \<open>net.IPNet\<close>, and once the
  capture handle is open the first tick panics in \<open>ips\<close>.
\<close>

theorem ips_panics_on_short_input:
  "((\<exists>out. ips n = Inr out) = (4 \<le> length (IP n) \<and> 4 \<le> length (Mask n)))
   \<and> (length (IP n) < 4 \<longrightarrow> ips n = Inl (IndexOutOfRange 3 (length (IP n))))
   \<and> (4 \<le> length (IP n) \<and> length (Mask n) < 4 \<longrightarrow>
         ips n = Inl (IndexOutOfRange 3 (length (Mask n))))
   \<and> (addrs \<noteq> [] \<and> list_all (\<lambda>a. \<not> is_ip4 a) addrs \<longrightarrow>
         scanIface_addr addrs = Inr \<lparr>IP = [], Mask = []\<rparr>
         \<and> scanIface iface \<lparr>Addrs = Inr addrs, OpenLive = None, Selects = Received e # sels\<rparr>
             = (Panicked (IndexOutOfRange 3 0),
                [Log (Scanning (Name iface)), GoReadARP, HandleClose, WgDone]))"
proof -
  have short_ip: "length (IP n) < 4 \<longrightarrow> ips n = Inl (IndexOutOfRange 3 (length (IP n)))"
    by (simp add: ips_def Uint32_def)
  have short_mask: "4 \<le> length (IP n) \<and> length (Mask n) < 4 \<longrightarrow>
         ips n = Inl (IndexOutOfRange 3 (length (Mask n)))"
    by (simp add: ips_def Uint32_def)
  have zero: "ips \<lparr>IP = [], Mask = []\<rparr> = Inl (IndexOutOfRange 3 0)"
    by (simp add: ips_def Uint32_def)
  have reach: "addrs \<noteq> [] \<and> list_all (\<lambda>a. \<not> is_ip4 a) addrs \<longrightarrow>
         scanIface_addr addrs = Inr \<lparr>IP = [], Mask = []\<rparr>
         \<and> scanIface iface \<lparr>Addrs = Inr addrs, OpenLive = None, Selects = Received e # sels\<rparr>
             = (Panicked (IndexOutOfRange 3 0),
                [Log (Scanning (Name iface)), GoReadARP, HandleClose, WgDone])"
    by (simp add: scanIface_addr_none scanIface_def writeARP_def zero deferred_def)
  from ips_defined_iff short_ip short_mask reach show ?thesis
    by (intro conjI)
qed

theorem ips_panics_on_short_input_witness:
  "scanIface_addr addrs_v6 = Inr \<lparr>IP = [], Mask = []\<rparr>
   \<and> ips \<lparr>IP = [], Mask = []\<rparr> = Inl (IndexOutOfRange 3 0)
   \<and> scanIface eth0 \<lparr>Addrs = Inr addrs_v6, OpenLive = None, Selects = [Received env_ok]\<rparr>
       = (Panicked (IndexOutOfRange 3 0),
          [Log (Scanning (Name eth0)), GoReadARP, HandleClose, WgDone])"
proof -
  have v6: "addrs_v6 \<noteq> [] \<and> list_all (\<lambda>a. \<not> is_ip4 a) addrs_v6"
    by (simp add: addrs_v6_def is_ip4_def To4_def)
  have len: "length (IP \<lparr>IP = [], Mask = []\<rparr>) < 4"
    by simp
  from ips_panics_on_short_input [of "\<lparr>IP = [], Mask = []\<rparr>" addrs_v6 eth0 env_ok "[]"] v6 len
  show ?thesis
    by simp
qed

section \<open>Properties of the coordinator\<close>

lemma count_list_update:
  "i < length xs \<Longrightarrow>
     int (count_list (xs[i := v]) x)
       = int (count_list xs x) - (if xs ! i = x then 1 else 0) + (if v = x then 1 else 0)"
proof (induction xs arbitrary: i)
  case Nil
  then show ?case by simp
next
  case (Cons y ys)
  show ?case
  proof (cases i)
    case 0
    then show ?thesis by simp
  next
    case (Suc j)
    with Cons.prems have "j < length ys" by simp
    from Cons.IH [OF this] Suc show ?thesis by (auto split: if_splits)
  qed
qed

lemma inv_init: "inv n (init n)"
  by (simp add: inv_def init_def count_list_0_iff)

lemma count_list_zero_update:
  "count_list xs x = 0 \<Longrightarrow> v \<noteq> x \<Longrightarrow> count_list (xs[i := v]) x = 0"
  by (auto simp add: count_list_0_iff dest: set_update_subset_insert [THEN subsetD])

lemma inv_step:
  assumes "inv n s" and "\<not> returned s" and "\<not> crashed s" and "step s a = Some s'"
  shows "inv n s'"
proof (cases a)
  case (Spawn i)
  with assms show ?thesis
    by (auto simp add: inv_def count_list_update split: if_splits)
next
  case (StartReader i)
  with assms show ?thesis
    by (auto simp add: inv_def count_list_update count_list_zero_update split: if_splits)
next
  case (ScannerReturns i why)
  with assms show ?thesis
    by (auto simp add: inv_def wgDone_def count_list_update split: if_splits)
next
  case (ReaderReturns i)
  with assms show ?thesis
    by (auto simp add: inv_def wgDone_def count_list_update split: if_splits)
next
  case Cancel
  with assms show ?thesis
    by (auto simp add: inv_def)
next
  case WaitReturns
  with assms show ?thesis
    by (auto simp add: inv_def split: if_splits)
qed

lemma inv_exec:
  "inv n s \<Longrightarrow> exec s acts = Some s' \<Longrightarrow> inv n s'"
proof (induction acts arbitrary: s)
  case Nil
  then show ?case by simp
next
  case (Cons a acts)
  from Cons.prems(2) obtain t where live: "\<not> returned s" "\<not> crashed s"
    and st: "step s a = Some t" and rest: "exec t acts = Some s'"
    by (auto split: if_splits option.splits)
  from inv_step [OF Cons.prems(1) live st] rest show ?case
    by (rule Cons.IH)
qed

lemma reachable_inv: "exec (init n) acts = Some s \<Longrightarrow> inv n s"
  using inv_init by (rule inv_exec)

lemma count_list_pos_nth:
  "0 < count_list xs x \<Longrightarrow> \<exists>j < length xs. xs ! j = x"
  by (metis count_list_0_iff in_set_conv_nth less_numeral_extra(3))

lemma no_running_all_finished:
  "count_list xs Running = 0 \<Longrightarrow> list_all (\<lambda>t. t \<noteq> NotStarted) xs \<Longrightarrow> list_all (\<lambda>t. t = Finished) xs"
  by (induction xs) (auto split: if_splits intro: task.exhaust)

text \<open>Whenever \<open>run\<close> returns after a reader was started, a task is still running.\<close>

lemma run_returns_with_task_running:
  assumes "exec (init n) acts = Some s" and "returned s" and "i < n"
    and "readers s ! i \<noteq> NotStarted"
  shows "\<exists>j < n. readers s ! j = Running \<or> scanners s ! j = Running"
proof (cases "readers s ! i = Running")
  case True
  with assms(3) show ?thesis by blast
next
  case False
  with assms(4) have fin: "readers s ! i = Finished"
    by (cases "readers s ! i") simp_all
  from reachable_inv [OF assms(1)] have i: "inv n s" .
  with assms(3) fin have "0 < count_list (readers s) Finished"
    by (auto simp add: inv_def count_list_0_iff in_set_conv_nth)
  with i assms(2) have "0 < count_list (scanners s) Running"
    by (simp add: inv_def)
  then obtain j where "j < length (scanners s)" "scanners s ! j = Running"
    by (auto dest: count_list_pos_nth)
  with i show ?thesis
    by (auto simp add: inv_def)
qed

text \<open>
  Before the cancellation the process does not die of the counter, and \<open>run\<close> returns
  only once every \<open>scanIface\<close> has returned.
\<close>

lemma run_before_cancel:
  assumes "exec (init n) acts = Some s" and "\<not> cancelled s"
  shows "\<not> crashed s" and "returned s \<longrightarrow> list_all (\<lambda>t. t = Finished) (scanners s)"
proof -
  from reachable_inv [OF assms(1)] have i: "inv n s" .
  with assms(2) show "\<not> crashed s"
    by (simp add: inv_def)
  from i assms(2) show "returned s \<longrightarrow> list_all (\<lambda>t. t = Finished) (scanners s)"
    by (auto simp add: inv_def intro: no_running_all_finished)
qed

text \<open>A sweep that returns the error of a write ends with that write.\<close>

lemma writeARP_loop_failure_last:
  "fst (writeARP_loop e iface eth arp i buf cands) = Some (Failure m) \<Longrightarrow>
     \<exists>b. snd (writeARP_loop e iface eth arp i buf cands) \<noteq> []
        \<and> last (snd (writeARP_loop e iface eth arp i buf cands)) = Write b (Some m)"
proof (induction cands arbitrary: arp i buf)
  case Nil
  then show ?case by simp
next
  case (Cons ip rest)
  obtain serr buf' where ser: "SerializeLayers e buf eth (arp\<lparr>DstProtAddress := ip\<rparr>) = (serr, buf')"
    by (cases "SerializeLayers e buf eth (arp\<lparr>DstProtAddress := ip\<rparr>)")
  from Cons.prems Cons.IH [of "arp\<lparr>DstProtAddress := ip\<rparr>" "Suc i" buf'] show ?case
    by (simp only: writeARP_loop_Cons [OF refl ser])
       (auto split: option.splits if_splits)
qed

text \<open>After a sweep that returned an error the driver logs it and returns; no later tick is served.\<close>

lemma scanIface_loop_failed_sweep:
  "writeARP e iface addr = Inr (Some err, evs) \<Longrightarrow>
     scanIface_loop iface addr (Received e # sels)
       = (Returned, evs @ [Log (WritingError (Name iface) err)])"
  by simp

section \<open>The claims about the coordinator\<close>

text \<open>
  C2 fails on the code. With two interfaces whose capture handles open, \<open>run\<close> adds 2 to
  the wait group and four goroutines call \<open>wg.Done()\<close>. When the two readers see the
  cancellation first, the counter is 0 and \<open>wg.Wait()\<close> returns while both \<open>scanIface\<close>
  goroutines still run; when a third goroutine returns before \<open>wg.Wait()\<close> is served, the
  counter goes negative and the process panics.
\<close>

theorem run_returns_while_scanners_run:
  "exec (init 2) [Spawn 0, Spawn 1, StartReader 0, StartReader 1, Cancel,
                  ReaderReturns 0, ReaderReturns 1, WaitReturns]
     = Some \<lparr>wg = 0, scanners = [Running, Running], readers = [Finished, Finished],
             cancelled = True, returned = True, crashed = False\<rparr>
   \<and> exec (init 2) [Spawn 0, Spawn 1, StartReader 0, StartReader 1, Cancel,
                    ReaderReturns 0, ReaderReturns 1, ScannerReturns 0 SawDone]
     = Some \<lparr>wg = - 1, scanners = [Finished, Running], readers = [Finished, Finished],
             cancelled = True, returned = False, crashed = True\<rparr>"
  by code_simp

text \<open>
  C6 fails on the code in its last part. On a host with one interface, 192.168.1.10/30,
  whose first write fails, the sweep ends with that write, \<open>scanIface\<close> logs the error and
  returns, and later ticks are not served: so far the claim holds. But the deferred
  \<open>wg.Done()\<close> of \<open>scanIface\<close> takes the counter from 1 to 0, so \<open>wg.Wait()\<close> returns and
  \<open>run\<close> and \<open>main\<close> with it: the process ends, without any cancellation, while the
  reader of the interface is still running.
\<close>

theorem write_failure_ends_process:
  "fst (scanIface eth0 \<lparr>Addrs = Inr [AddrIPNet net30], OpenLive = None,
                         Selects = [Received (env_write_fails 0), Received env_ok]\<rparr>) = Returned
   \<and> loglines (snd (scanIface eth0 \<lparr>Addrs = Inr [AddrIPNet net30], OpenLive = None,
                         Selects = [Received (env_write_fails 0), Received env_ok]\<rparr>))
       = [Scanning ''eth0'', WritingError ''eth0'' (Failure ''send: Network is down'')]
   \<and> length (written (snd (scanIface eth0 \<lparr>Addrs = Inr [AddrIPNet net30], OpenLive = None,
                         Selects = [Received (env_write_fails 0), Received env_ok]\<rparr>))) = 1
   \<and> last (snd (scanIface eth0 \<lparr>Addrs = Inr [AddrIPNet net30], OpenLive = None,
                         Selects = [Received (env_write_fails 0), Received env_ok]\<rparr>)) = WgDone
   \<and> exec (init 1) [Spawn 0, StartReader 0, ScannerReturns 0 WriteFailed, WaitReturns]
       = Some \<lparr>wg = 0, scanners = [Finished], readers = [Running],
               cancelled = False, returned = True, crashed = False\<rparr>"
  by code_simp

text \<open>
  C8 (as the claim states it) fails in the logged warning: an interface without any
  address is skipped by a bare \<open>return\<close>, and nothing is logged.
\<close>

theorem no_address_skipped_without_log:
  "scanIface eth0 \<lparr>Addrs = Inr [], OpenLive = None, Selects = [Received env_ok]\<rparr>
     = (Returned, [WgDone])
   \<and> loglines [WgDone] = []"
  by code_simp

text \<open>
  C8, amended: an interface without any address is skipped without a log line, and one
  whose capture session fails to open is skipped with a logged error; in both cases
  \<open>scanIface\<close> only returns, without starting a reader or writing a packet. Such a
  return changes nothing but the state of that goroutine and the counter, and before the
  cancellation the process does not die of the counter and \<open>run\<close> returns only once the
  \<open>scanIface\<close> of every interface has returned: the setup failure of one interface does
  not end the scan of the others.
\<close>

theorem setup_failure_skips_interface_only:
  "(Addrs ie = Inr [] \<longrightarrow> scanIface iface ie = (Returned, [WgDone]))
   \<and> (Addrs ie = Inr addrs \<and> addrs \<noteq> [] \<and> scanIface_addr addrs = Inr addr
        \<and> OpenLive ie = Some err \<longrightarrow>
          scanIface iface ie = (Returned, [Log (OpenError err), WgDone]))
   \<and> (step s (ScannerReturns i SetupFailed) = Some s' \<longrightarrow>
          wg s' = wg s - 1 \<and> scanners s' = (scanners s)[i := Finished]
          \<and> readers s' = readers s \<and> cancelled s' = cancelled s \<and> returned s' = returned s)
   \<and> (exec (init n) acts = Some t \<and> \<not> cancelled t \<longrightarrow>
          \<not> crashed t \<and> (returned t \<longrightarrow> list_all (\<lambda>x. x = Finished) (scanners t)))"
proof -
  have none: "Addrs ie = Inr [] \<longrightarrow> scanIface iface ie = (Returned, [WgDone])"
    by (simp add: scanIface_def)
  have closed: "Addrs ie = Inr addrs \<and> addrs \<noteq> [] \<and> scanIface_addr addrs = Inr addr
        \<and> OpenLive ie = Some err \<longrightarrow>
          scanIface iface ie = (Returned, [Log (OpenError err), WgDone])"
    by (simp add: scanIface_def)
  have local: "step s (ScannerReturns i SetupFailed) = Some s' \<longrightarrow>
          wg s' = wg s - 1 \<and> scanners s' = (scanners s)[i := Finished]
          \<and> readers s' = readers s \<and> cancelled s' = cancelled s \<and> returned s' = returned s"
    by (auto simp add: wgDone_def split: if_splits)
  have others: "exec (init n) acts = Some t \<and> \<not> cancelled t \<longrightarrow>
          \<not> crashed t \<and> (returned t \<longrightarrow> list_all (\<lambda>x. x = Finished) (scanners t))"
    using run_before_cancel [of n acts t] by blast
  from none closed local others show ?thesis
    by (intro conjI)
qed

theorem setup_failure_skips_interface_only_witness:
  "scanIface eth0 \<lparr>Addrs = Inr [], OpenLive = None, Selects = []\<rparr> = (Returned, [WgDone])
   \<and> scanIface eth0 \<lparr>Addrs = Inr [AddrIPNet net30], OpenLive = Some ''permission denied'',
                      Selects = []\<rparr>
       = (Returned, [Log (OpenError ''permission denied''), WgDone])
   \<and> exec (init 2) [Spawn 0, Spawn 1, ScannerReturns 0 SetupFailed, StartReader 1]
       = Some \<lparr>wg = 1, scanners = [Finished, Running], readers = [NotStarted, Running],
               cancelled = False, returned = False, crashed = False\<rparr>"
proof -
  have a: "scanIface_addr [AddrIPNet net30] = Inr net30"
    by (simp add: net30_def To4_def)
  have run: "exec (init 2) [Spawn 0, Spawn 1, ScannerReturns 0 SetupFailed, StartReader 1]
       = Some \<lparr>wg = 1, scanners = [Finished, Running], readers = [NotStarted, Running],
               cancelled = False, returned = False, crashed = False\<rparr>"
    by code_simp
  from setup_failure_skips_interface_only
         [of "\<lparr>Addrs = Inr [], OpenLive = None, Selects = []\<rparr>" eth0]
  have first: "scanIface eth0 \<lparr>Addrs = Inr [], OpenLive = None, Selects = []\<rparr> = (Returned, [WgDone])"
    by simp
  from setup_failure_skips_interface_only
         [of "\<lparr>Addrs = Inr [AddrIPNet net30], OpenLive = Some ''permission denied'', Selects = []\<rparr>"
             eth0 "[AddrIPNet net30]" net30 "''permission denied''"] a
  have second: "scanIface eth0 \<lparr>Addrs = Inr [AddrIPNet net30], OpenLive = Some ''permission denied'',
                      Selects = []\<rparr>
       = (Returned, [Log (OpenError ''permission denied''), WgDone])"
    by simp
  from first second run show ?thesis
    by (intro conjI)
qed

end
